theory Spec2Isabelle
  imports Main "HOL-Library.Word" "HOL-Library.Code_Target_Nat"
begin

section \<open>Bytes, errors and the external collaborators\<close>

text \<open>
  The module \<^verbatim>\<open>utils/pubkey.js\<close> works on Node \<^verbatim>\<open>Buffer\<close>s and
  \<^verbatim>\<open>Uint8Array\<close>s: sequences of bytes. A thrown JavaScript exception is a value
  of type \<open>error\<close>; the two classes the module distinguishes (\<^verbatim>\<open>TypeError\<close> and
  plain \<^verbatim>\<open>Error\<close>) are the two constructors, each with its message.
\<close>

type_synonym byte = "8 word"
type_synonym bytes = "byte list"

datatype error = TypeError string | Error string

text \<open>
  \<^verbatim>\<open>Buffer.from(str)\<close> for an ASCII string: one byte per character.
  \<^verbatim>\<open>Buffer.from(arr)\<close> for a byte array: the same bytes.
\<close>

definition Buffer_from_string :: "string \<Rightarrow> bytes" where
  "Buffer_from_string s = map (\<lambda>c. of_nat (of_char c)) s"

definition Buffer_from :: "bytes \<Rightarrow> bytes" where
  "Buffer_from arr = arr"

text \<open>
  The helper \<^verbatim>\<open>toBuffer\<close> of the module: a \<^verbatim>\<open>Buffer\<close> is returned as it is, a
  \<^verbatim>\<open>Uint8Array\<close> is viewed as a \<^verbatim>\<open>Buffer\<close> over the same bytes, anything else goes
  through \<^verbatim>\<open>Buffer.from\<close>. All three branches yield the bytes of the argument.
\<close>

definition toBuffer :: "bytes \<Rightarrow> bytes" where
  "toBuffer arr = Buffer_from arr"

subsection \<open>js-sha256\<close>

text \<open>
  The hash is a library outside the repository. It is a parameter \<open>H\<close> of every
  operation: the function from a message to its digest bytes. The library's
  \<^verbatim>\<open>sha256.digest(m)\<close> returns the digest as an array of bytes, and \<^verbatim>\<open>sha256(m)\<close>
  returns the same digest in lower-case hexadecimal, two characters per byte.
\<close>

definition HEX_CHARS :: "string" where
  "HEX_CHARS = ''0123456789abcdef''"

definition hex_of_byte :: "byte \<Rightarrow> string" where
  "hex_of_byte b = [HEX_CHARS ! (unat b div 16), HEX_CHARS ! (unat b mod 16)]"

definition hex :: "bytes \<Rightarrow> string" where
  "hex bs = concat (map hex_of_byte bs)"

definition sha256_digest :: "(bytes \<Rightarrow> bytes) \<Rightarrow> bytes \<Rightarrow> bytes" where
  "sha256_digest H m = H m"

definition sha256_hex :: "(bytes \<Rightarrow> bytes) \<Rightarrow> bytes \<Rightarrow> string" where
  "sha256_hex H m = hex (H m)"

text \<open>What SHA-256 guarantees about its output: 32 bytes, whatever the message.\<close>

definition digest32 :: "(bytes \<Rightarrow> bytes) \<Rightarrow> bool" where
  "digest32 H = (\<forall>m. length (H m) = 32)"

subsection \<open>bn.js\<close>

text \<open>
  A \<^verbatim>\<open>BN\<close> is an unbounded non-negative integer here (the module never builds a
  negative one). \<^verbatim>\<open>new BN(str, 16)\<close> reads hexadecimal digits, most significant first,
  and fails on any other character (the module only passes it the output of
  \<^verbatim>\<open>sha256\<close>, which has no sign and no white space); \<^verbatim>\<open>new BN(arr)\<close> reads a byte
  array big-endian.
  \<^verbatim>\<open>bn.byteLength()\<close> is the number of bytes needed, 0 for zero.
  \<^verbatim>\<open>bn.toArray(endian, length)\<close> with the default big-endian order asserts that the
  number fits and pads with leading zeros; without a length it uses
  \<^verbatim>\<open>Math.max(1, byteLength)\<close>.
\<close>

definition parseHex4Bits :: "char \<Rightarrow> error + nat" where
  "parseHex4Bits ch =
     (let c = (of_char ch :: nat) in
      if 48 \<le> c \<and> c \<le> 57 then Inr (c - 48)
      else if 65 \<le> c \<and> c \<le> 70 then Inr (c - 55)
      else if 97 \<le> c \<and> c \<le> 102 then Inr (c - 87)
      else Inl (Error ''Invalid character''))"

fun parseHex :: "nat \<Rightarrow> string \<Rightarrow> error + nat" where
  "parseHex acc [] = Inr acc"
| "parseHex acc (c # cs) =
     (case parseHex4Bits c of
        Inl e \<Rightarrow> Inl e
      | Inr d \<Rightarrow> parseHex (acc * 16 + d) cs)"

definition BN_of_hex :: "string \<Rightarrow> error + nat" where
  "BN_of_hex s = parseHex 0 s"

definition BN_of_array :: "bytes \<Rightarrow> nat" where
  "BN_of_array bs = foldl (\<lambda>acc b. acc * 256 + unat b) 0 bs"

fun byteLength :: "nat \<Rightarrow> nat" where
  "byteLength n = (if n = 0 then 0 else Suc (byteLength (n div 256)))"

fun be_bytes :: "nat \<Rightarrow> nat \<Rightarrow> bytes" where
  "be_bytes 0 n = []"
| "be_bytes (Suc k) n = be_bytes k (n div 256) @ [of_nat (n mod 256)]"

definition BN_toArray :: "nat \<Rightarrow> nat \<Rightarrow> error + bytes" where
  "BN_toArray n len =
     (let bl = byteLength n;
          reqLength = (if len = 0 then max 1 bl else len)
      in if reqLength < bl then Inl (Error ''byte array longer than desired length'')
         else Inr (be_bytes reqLength n))"

subsection \<open>PublicKey of @solana/web3.js\<close>

text \<open>
  A \<^verbatim>\<open>PublicKey\<close> holds a \<^verbatim>\<open>BN\<close> of at most 32 bytes: the constructor throws
  \<^verbatim>\<open>Error("Invalid public key input")\<close> on anything longer, so the field is a 256-bit
  word. \<^verbatim>\<open>toBuffer()\<close> is its big-endian form, padded with zeros to 32 bytes.
  \<^verbatim>\<open>PublicKey.isOnCurve\<close>, the curve-membership test of the signing scheme, is the
  parameter \<open>isOnCurve\<close> of the operations that use it.
\<close>

datatype PublicKey = PublicKey (bn: "256 word")

definition new_PublicKey :: "bytes \<Rightarrow> error + PublicKey" where
  "new_PublicKey v =
     (let n = BN_of_array v in
      if 32 < byteLength n then Inl (Error ''Invalid public key input'')
      else Inr (PublicKey (of_nat n)))"

definition PublicKey_toBuffer :: "PublicKey \<Rightarrow> bytes" where
  "PublicKey_toBuffer k = be_bytes 32 (unat (bn k))"

section \<open>The operations of utils/pubkey.js\<close>

subsection \<open>createWithSeedSync\<close>

text \<open>
  \<^verbatim>\<open>createWithSeedSync(fromPublicKey, seed, programId)\<close>: the three byte strings are
  concatenated, hashed with \<^verbatim>\<open>sha256.digest\<close>, and the digest is handed to the
  \<^verbatim>\<open>PublicKey\<close> constructor. The argument \<open>seed\<close> stands for the bytes that
  \<^verbatim>\<open>Buffer.from(seed)\<close> yields.
\<close>

definition createWithSeedSync ::
  "(bytes \<Rightarrow> bytes) \<Rightarrow> PublicKey \<Rightarrow> bytes \<Rightarrow> PublicKey \<Rightarrow> error + PublicKey" where
  "createWithSeedSync H fromPublicKey seed programId =
     (let buffer = concat [PublicKey_toBuffer fromPublicKey,
                           Buffer_from seed,
                           PublicKey_toBuffer programId];
          hash = sha256_digest H buffer
      in new_PublicKey (Buffer_from hash))"

subsection \<open>createProgramAddressSync\<close>

definition MAX_SEED_LENGTH :: nat where
  "MAX_SEED_LENGTH = 32"

text \<open>
  The \<^verbatim>\<open>seeds.forEach\<close> loop: each seed is checked against \<^verbatim>\<open>MAX_SEED_LENGTH\<close> and
  then appended to the running \<^verbatim>\<open>buffer\<close>; the first seed that is too long throws.
\<close>

fun seeds_forEach :: "bytes \<Rightarrow> bytes list \<Rightarrow> error + bytes" where
  "seeds_forEach buffer [] = Inr buffer"
| "seeds_forEach buffer (seed # rest) =
     (if MAX_SEED_LENGTH < length seed then Inl (TypeError ''Max seed length exceeded'')
      else seeds_forEach (concat [buffer, toBuffer seed]) rest)"

text \<open>
  After the loop the program id and the domain constant are appended, the buffer is
  hashed to a hexadecimal string, the string is read back as a \<^verbatim>\<open>BN\<close> and written out
  as 32 big-endian bytes; these are tested against the curve and, when off it, wrapped
  in a \<^verbatim>\<open>PublicKey\<close>.
\<close>

definition createProgramAddressSync ::
  "(bytes \<Rightarrow> bytes) \<Rightarrow> (bytes \<Rightarrow> bool) \<Rightarrow> bytes list \<Rightarrow> PublicKey \<Rightarrow> error + PublicKey" where
  "createProgramAddressSync H isOnCurve seeds programId =
     (case seeds_forEach [] seeds of
        Inl e \<Rightarrow> Inl e
      | Inr buffer \<Rightarrow>
          (let buffer = concat [buffer,
                                PublicKey_toBuffer programId,
                                Buffer_from_string ''ProgramDerivedAddress''];
               hash = sha256_hex H buffer
           in case BN_of_hex hash of
                Inl e \<Rightarrow> Inl e
              | Inr n \<Rightarrow>
                  (case BN_toArray n 32 of
                     Inl e \<Rightarrow> Inl e
                   | Inr publicKeyBytes \<Rightarrow>
                       if isOnCurve publicKeyBytes
                       then Inl (Error ''Invalid seeds, address must fall off the curve'')
                       else new_PublicKey publicKeyBytes)))"

text \<open>
  The same function with a ghost log: the list of buffers that were handed to
  \<^verbatim>\<open>sha256\<close> during the call, in order.
\<close>

definition createProgramAddressSync_traced ::
  "(bytes \<Rightarrow> bytes) \<Rightarrow> (bytes \<Rightarrow> bool) \<Rightarrow> bytes list \<Rightarrow> PublicKey
     \<Rightarrow> (error + PublicKey) \<times> bytes list" where
  "createProgramAddressSync_traced H isOnCurve seeds programId =
     (case seeds_forEach [] seeds of
        Inl e \<Rightarrow> (Inl e, [])
      | Inr buffer \<Rightarrow>
          (let buffer = concat [buffer,
                                PublicKey_toBuffer programId,
                                Buffer_from_string ''ProgramDerivedAddress''];
               hash = sha256_hex H buffer;
               hashed = [buffer]
           in case BN_of_hex hash of
                Inl e \<Rightarrow> (Inl e, hashed)
              | Inr n \<Rightarrow>
                  (case BN_toArray n 32 of
                     Inl e \<Rightarrow> (Inl e, hashed)
                   | Inr publicKeyBytes \<Rightarrow>
                       if isOnCurve publicKeyBytes
                       then (Inl (Error ''Invalid seeds, address must fall off the curve''), hashed)
                       else (new_PublicKey publicKeyBytes, hashed))))"

subsection \<open>findProgramAddressSync\<close>

text \<open>
  The \<^verbatim>\<open>while (nonce != 0)\<close> loop, as a function of the current value of
  \<^verbatim>\<open>nonce\<close>. The \<^verbatim>\<open>catch\<close> block rethrows a \<^verbatim>\<open>TypeError\<close> and, on any other
  exception, decrements \<^verbatim>\<open>nonce\<close> and continues. \<^verbatim>\<open>seeds.concat(b)\<close> with a
  \<^verbatim>\<open>Buffer\<close> \<open>b\<close> appends \<open>b\<close> as one more element.
\<close>

fun find_loop ::
  "(bytes \<Rightarrow> bytes) \<Rightarrow> (bytes \<Rightarrow> bool) \<Rightarrow> bytes list \<Rightarrow> PublicKey \<Rightarrow> nat
     \<Rightarrow> error + PublicKey \<times> nat" where
  "find_loop H isOnCurve seeds programId 0 =
     Inl (Error ''Unable to find a viable program address nonce'')"
| "find_loop H isOnCurve seeds programId (Suc n) =
     (let nonce = Suc n;
          seedsWithNonce = seeds @ [Buffer_from [of_nat nonce]]
      in case createProgramAddressSync H isOnCurve seedsWithNonce programId of
           Inr address \<Rightarrow> Inr (address, nonce)
         | Inl (TypeError msg) \<Rightarrow> Inl (TypeError msg)
         | Inl (Error msg) \<Rightarrow> find_loop H isOnCurve seeds programId n)"

definition findProgramAddressSync ::
  "(bytes \<Rightarrow> bytes) \<Rightarrow> (bytes \<Rightarrow> bool) \<Rightarrow> bytes list \<Rightarrow> PublicKey
     \<Rightarrow> error + PublicKey \<times> nat" where
  "findProgramAddressSync H isOnCurve seeds programId =
     find_loop H isOnCurve seeds programId 255"

text \<open>
  The loop with a ghost trace: one entry per iteration of the \<^verbatim>\<open>try\<close> block, holding
  the value of \<^verbatim>\<open>nonce\<close> and the buffers hashed in that iteration.
\<close>

fun find_loop_traced ::
  "(bytes \<Rightarrow> bytes) \<Rightarrow> (bytes \<Rightarrow> bool) \<Rightarrow> bytes list \<Rightarrow> PublicKey \<Rightarrow> nat
     \<Rightarrow> (error + PublicKey \<times> nat) \<times> (nat \<times> bytes list) list" where
  "find_loop_traced H isOnCurve seeds programId 0 =
     (Inl (Error ''Unable to find a viable program address nonce''), [])"
| "find_loop_traced H isOnCurve seeds programId (Suc n) =
     (let nonce = Suc n;
          seedsWithNonce = seeds @ [Buffer_from [of_nat nonce]];
          (r, hashed) = createProgramAddressSync_traced H isOnCurve seedsWithNonce programId
      in case r of
           Inr address \<Rightarrow> (Inr (address, nonce), [(nonce, hashed)])
         | Inl (TypeError msg) \<Rightarrow> (Inl (TypeError msg), [(nonce, hashed)])
         | Inl (Error msg) \<Rightarrow>
             (let (r', rest) = find_loop_traced H isOnCurve seeds programId n
              in (r', (nonce, hashed) # rest)))"

definition findProgramAddressSync_traced ::
  "(bytes \<Rightarrow> bytes) \<Rightarrow> (bytes \<Rightarrow> bool) \<Rightarrow> bytes list \<Rightarrow> PublicKey
     \<Rightarrow> (error + PublicKey \<times> nat) \<times> (nat \<times> bytes list) list" where
  "findProgramAddressSync_traced H isOnCurve seeds programId =
     find_loop_traced H isOnCurve seeds programId 255"

subsection \<open>associated\<close>

text \<open>
  An argument of \<^verbatim>\<open>associated\<close> is either a \<^verbatim>\<open>Buffer\<close> or some other address-like
  value. \<^verbatim>\<open>translateAddress\<close> (of \<^verbatim>\<open>program/common.js\<close>) and
  \<^verbatim>\<open>PublicKey.findProgramAddress\<close> (of @solana/web3.js) are parameters; either may
  throw, and the promise that \<^verbatim>\<open>associated\<close> returns is then rejected with that error.
\<close>

datatype 'a component = Buf bytes | Other 'a

definition anchor :: bytes where
  "anchor = Buffer_from [97, 110, 99, 104, 111, 114]"

fun args_forEach ::
  "('a \<Rightarrow> error + PublicKey) \<Rightarrow> bytes list \<Rightarrow> 'a component list \<Rightarrow> error + bytes list" where
  "args_forEach translateAddress seeds [] = Inr seeds"
| "args_forEach translateAddress seeds (arg # rest) =
     (case arg of
        Buf b \<Rightarrow> args_forEach translateAddress (seeds @ [b]) rest
      | Other a \<Rightarrow>
          (case translateAddress a of
             Inl e \<Rightarrow> Inl e
           | Inr k \<Rightarrow> args_forEach translateAddress (seeds @ [PublicKey_toBuffer k]) rest))"

definition associated ::
  "('a \<Rightarrow> error + PublicKey) \<Rightarrow> (bytes list \<Rightarrow> PublicKey \<Rightarrow> error + PublicKey \<times> nat)
     \<Rightarrow> 'a \<Rightarrow> 'a component list \<Rightarrow> error + PublicKey" where
  "associated translateAddress findProgramAddress programId args =
     (case args_forEach translateAddress [anchor] args of
        Inl e \<Rightarrow> Inl e
      | Inr seeds \<Rightarrow>
          (case translateAddress programId of
             Inl e \<Rightarrow> Inl e
           | Inr pid \<Rightarrow>
               (case findProgramAddress seeds pid of
                  Inl e \<Rightarrow> Inl e
                | Inr (assoc, nonce) \<Rightarrow> Inr assoc)))"

section \<open>Reference notions and concrete instances\<close>

text \<open>
  The byte layout of the specification: the seeds in list order, the 32 bytes of the
  program id, and the domain constant.
\<close>

definition spec_preimage :: "bytes list \<Rightarrow> PublicKey \<Rightarrow> bytes" where
  "spec_preimage seeds programId =
     concat seeds @ PublicKey_toBuffer programId @ Buffer_from_string ''ProgramDerivedAddress''"

text \<open>
  A concrete instance of the two parameters, small enough to compute with: the digest
  is the first byte of the message followed by 31 zero bytes, and a byte string counts
  as on the curve when its first byte exceeds 253.
\<close>

definition example_hash :: "bytes \<Rightarrow> bytes" where
  "example_hash m = (case m of [] \<Rightarrow> 0 | b # _ \<Rightarrow> b) # replicate 31 0"

definition example_curve :: "bytes \<Rightarrow> bool" where
  "example_curve v = (case v of [] \<Rightarrow> False | b # _ \<Rightarrow> 253 < unat b)"

section \<open>Encoding lemmas\<close>

lemma parse_hex_char: "d < 16 \<Longrightarrow> parseHex4Bits (HEX_CHARS ! d) = Inr d"
proof -
  assume "d < 16"
  then have "d \<in> {0,1,2,3,4,5,6,7,8,9,10,11,12,13,14,15}"
    by (simp only: insert_iff empty_iff) arith
  then show ?thesis
    by (auto simp: HEX_CHARS_def parseHex4Bits_def)
qed

lemma parseHex_hex_of_byte:
  "parseHex acc (hex_of_byte b @ cs) = parseHex (acc * 256 + unat b) cs"
proof -
  have hi: "unat b div 16 < 16" using unsigned_less[of b, where ?'a=nat] by simp
  have lo: "unat b mod 16 < 16" by simp
  have eq: "(acc * 16 + unat b div 16) * 16 + unat b mod 16 = acc * 256 + unat b"
    by (simp add: algebra_simps)
  have "parseHex acc (hex_of_byte b @ cs)
        = parseHex ((acc * 16 + unat b div 16) * 16 + unat b mod 16) cs"
    by (simp only: hex_of_byte_def append.simps parseHex.simps
          parse_hex_char[OF hi] parse_hex_char[OF lo] sum.case)
  then show ?thesis by (simp only: eq)
qed

lemma parseHex_hex: "parseHex acc (hex bs) = Inr (foldl (\<lambda>acc b. acc * 256 + unat b) acc bs)"
  by (induction bs arbitrary: acc) (simp_all add: hex_def parseHex_hex_of_byte)

lemma BN_of_hex_hex: "BN_of_hex (hex bs) = Inr (BN_of_array bs)"
  by (simp add: BN_of_hex_def BN_of_array_def parseHex_hex)

text \<open>The encodings on concrete values.\<close>

lemma hex_example: "hex [10, 255, 0] = ''0aff00''"
  by (simp add: hex_def hex_of_byte_def HEX_CHARS_def)

lemma BN_of_hex_example: "BN_of_hex ''0aff00'' = Inr 720640"
  by (simp add: BN_of_hex_def parseHex4Bits_def)

lemma BN_of_hex_invalid: "BN_of_hex ''0g'' = Inl (Error ''Invalid character'')"
  by (simp add: BN_of_hex_def parseHex4Bits_def)

lemma BN_toArray_example: "BN_toArray 720640 4 = Inr [0, 10, 255, 0]"
  by code_simp

lemma BN_toArray_too_long: "BN_toArray 720640 2 = Inl (Error ''byte array longer than desired length'')"
  by code_simp

lemma BN_of_array_snoc: "BN_of_array (bs @ [b]) = BN_of_array bs * 256 + unat b"
  by (simp add: BN_of_array_def)

lemma BN_of_array_Nil: "BN_of_array [] = 0"
  by (simp add: BN_of_array_def)

lemma BN_of_array_bound: "BN_of_array bs < 256 ^ length bs"
proof (induction bs rule: rev_induct)
  case Nil
  then show ?case by (simp add: BN_of_array_Nil)
next
  case (snoc b bs)
  have "unat b < 256" using unsigned_less[of b, where ?'a=nat] by simp
  with snoc show ?case by (simp add: BN_of_array_snoc)
qed

lemma byteLength_le: "n < 256 ^ k \<Longrightarrow> byteLength n \<le> k"
proof (induction k arbitrary: n)
  case 0
  then show ?case by simp
next
  case (Suc k)
  show ?case
  proof (cases "n = 0")
    case True
    then show ?thesis by simp
  next
    case False
    from Suc.prems have "n div 256 < 256 ^ k"
      by (simp add: less_mult_imp_div_less mult.commute)
    then have "byteLength (n div 256) \<le> k" by (rule Suc.IH)
    with False show ?thesis by (subst byteLength.simps) simp
  qed
qed

lemma length_be_bytes: "length (be_bytes k n) = k"
  by (induction k arbitrary: n) simp_all

lemma be_bytes_BN_of_array: "be_bytes (length bs) (BN_of_array bs) = bs"
proof (induction bs rule: rev_induct)
  case Nil
  then show ?case by simp
next
  case (snoc b bs)
  have b: "unat b < 256" using unsigned_less[of b, where ?'a=nat] by simp
  then have "(BN_of_array bs * 256 + unat b) div 256 = BN_of_array bs"
    by simp
  moreover have "(BN_of_array bs * 256 + unat b) mod 256 = unat b"
    using b by simp
  ultimately show ?case using snoc
    by (simp add: BN_of_array_snoc)
qed

lemma BN_of_array_be_bytes: "BN_of_array (be_bytes k n) = n mod 256 ^ k"
proof (induction k arbitrary: n)
  case 0
  then show ?case by (simp add: BN_of_array_Nil)
next
  case (Suc k)
  have "unat (of_nat (n mod 256) :: byte) = n mod 256"
    by (simp add: unat_of_nat)
  then show ?case
    using Suc[of "n div 256"]
    by (simp add: BN_of_array_snoc mod_mult2_eq algebra_simps)
qed

section \<open>The derivation in closed form\<close>

lemma seeds_forEach_eq:
  "seeds_forEach buffer seeds =
     (if \<exists>s \<in> set seeds. 32 < length s then Inl (TypeError ''Max seed length exceeded'')
      else Inr (buffer @ concat seeds))"
  by (induction seeds arbitrary: buffer)
     (simp_all add: MAX_SEED_LENGTH_def toBuffer_def Buffer_from_def)

lemma BN_toArray_digest:
  assumes "length d = 32"
  shows "BN_toArray (BN_of_array d) 32 = Inr d"
proof -
  have "BN_of_array d < 256 ^ 32" using BN_of_array_bound[of d] assms by simp
  then have "byteLength (BN_of_array d) \<le> 32" by (rule byteLength_le)
  moreover have "be_bytes 32 (BN_of_array d) = d"
    using be_bytes_BN_of_array[of d] assms by simp
  ultimately show ?thesis by (simp add: BN_toArray_def Let_def)
qed

lemma new_PublicKey_digest:
  assumes "length d = 32"
  shows "\<exists>k. new_PublicKey d = Inr k \<and> PublicKey_toBuffer k = d"
proof -
  have lt: "BN_of_array d < 256 ^ 32" using BN_of_array_bound[of d] assms by simp
  then have bl: "byteLength (BN_of_array d) \<le> 32" by (rule byteLength_le)
  have "(256::nat) ^ 32 = 2 ^ 256" by simp
  with lt have "BN_of_array d < 2 ^ LENGTH(256)" by simp
  then have "unat (of_nat (BN_of_array d) :: 256 word) = BN_of_array d"
    by (simp add: unat_of_nat)
  moreover have "be_bytes 32 (BN_of_array d) = d"
    using be_bytes_BN_of_array[of d] assms by simp
  ultimately show ?thesis using bl
    by (simp add: new_PublicKey_def PublicKey_toBuffer_def Let_def)
qed

lemma createProgramAddressSync_eq:
  assumes "length (H (spec_preimage seeds programId)) = 32"
  shows "createProgramAddressSync H isOnCurve seeds programId =
     (if \<exists>s \<in> set seeds. 32 < length s then Inl (TypeError ''Max seed length exceeded'')
      else if isOnCurve (H (spec_preimage seeds programId))
      then Inl (Error ''Invalid seeds, address must fall off the curve'')
      else new_PublicKey (H (spec_preimage seeds programId)))"
  using assms
  by (simp add: createProgramAddressSync_def seeds_forEach_eq spec_preimage_def
        sha256_hex_def BN_of_hex_hex BN_toArray_digest)

lemma createProgramAddressSync_traced_eq:
  "createProgramAddressSync_traced H isOnCurve seeds programId =
     (createProgramAddressSync H isOnCurve seeds programId,
      if \<exists>s \<in> set seeds. 32 < length s then [] else [spec_preimage seeds programId])"
  by (simp add: createProgramAddressSync_traced_def createProgramAddressSync_def
        seeds_forEach_eq spec_preimage_def Let_def split: sum.splits)


lemma digest32_example_hash: "digest32 example_hash"
  by (simp add: digest32_def example_hash_def)

lemma be_bytes_zero: "be_bytes k 0 = replicate k 0"
  by (induction k) (simp_all add: replicate_append_same)

lemma length_PublicKey_toBuffer: "length (PublicKey_toBuffer k) = 32"
  by (simp add: PublicKey_toBuffer_def length_be_bytes)

lemma PublicKey_toBuffer_zero: "PublicKey_toBuffer (PublicKey 0) = replicate 32 0"
  by (simp add: PublicKey_toBuffer_def be_bytes_zero)

lemma ProgramDerivedAddress_bytes:
  "Buffer_from_string ''ProgramDerivedAddress'' =
     [80, 114, 111, 103, 114, 97, 109, 68, 101, 114, 105, 118, 101, 100,
      65, 100, 100, 114, 101, 115, 115]"
  by (simp add: Buffer_from_string_def)

section \<open>The nonce search\<close>

lemma fst_createProgramAddressSync_traced:
  "fst (createProgramAddressSync_traced H isOnCurve seeds programId) =
     createProgramAddressSync H isOnCurve seeds programId"
  by (simp add: createProgramAddressSync_traced_eq)

lemma length_snd_createProgramAddressSync_traced:
  "length (snd (createProgramAddressSync_traced H isOnCurve seeds programId)) \<le> 1"
  by (simp add: createProgramAddressSync_traced_eq)

lemma fst_find_loop_traced:
  "fst (find_loop_traced H isOnCurve seeds programId n) = find_loop H isOnCurve seeds programId n"
proof (induction n)
  case 0
  then show ?case by simp
next
  case (Suc n)
  obtain r' rest where rec: "find_loop_traced H isOnCurve seeds programId n = (r', rest)"
    by (cases "find_loop_traced H isOnCurve seeds programId n")
  with Suc.IH have "r' = find_loop H isOnCurve seeds programId n" by simp
  with rec show ?case
    by (simp add: createProgramAddressSync_traced_eq Let_def del: of_nat_Suc
          split: sum.splits error.splits)
qed

lemma find_loop_traced_shape:
  "find_loop_traced H isOnCurve seeds programId n = (r, tr) \<Longrightarrow>
     length tr \<le> n
     \<and> map fst tr = take (length tr) (rev [1..<Suc n])
     \<and> (\<forall>e \<in> set tr. length (snd e) \<le> 1)"
proof (induction n arbitrary: r tr)
  case 0
  then show ?case by simp
next
  case (Suc n)
  let ?c = "createProgramAddressSync_traced H isOnCurve
              (seeds @ [Buffer_from [of_nat (Suc n)]]) programId"
  have h1: "length (snd ?c) \<le> 1" by (rule length_snd_createProgramAddressSync_traced)
  obtain r' rest where rec: "find_loop_traced H isOnCurve seeds programId n = (r', rest)"
    by (cases "find_loop_traced H isOnCurve seeds programId n")
  from Suc.IH[OF rec] have ih: "length rest \<le> n"
    "map fst rest = take (length rest) (rev [1..<Suc n])"
    "\<forall>e \<in> set rest. length (snd e) \<le> 1" by auto
  have "tr = [(Suc n, snd ?c)] \<or> tr = (Suc n, snd ?c) # rest"
    using Suc.prems rec
    by (auto simp: Let_def simp del: of_nat_Suc split: sum.splits error.splits prod.splits)
  then show ?case
  proof
    assume "tr = [(Suc n, snd ?c)]"
    then show ?thesis using h1 by simp
  next
    assume "tr = (Suc n, snd ?c) # rest"
    then show ?thesis using h1 ih by simp
  qed
qed

lemma find_loop_Inr:
  "find_loop H isOnCurve seeds programId n = Inr (address, nonce) \<Longrightarrow>
     1 \<le> nonce \<and> nonce \<le> n
     \<and> createProgramAddressSync H isOnCurve (seeds @ [Buffer_from [of_nat nonce]]) programId
         = Inr address
     \<and> (\<forall>m. nonce < m \<and> m \<le> n \<longrightarrow>
          (\<exists>msg. createProgramAddressSync H isOnCurve (seeds @ [Buffer_from [of_nat m]]) programId
             = Inl (Error msg)))"
proof (induction n)
  case 0
  then show ?case by simp
next
  case (Suc n)
  show ?case
  proof (cases "createProgramAddressSync H isOnCurve
                  (seeds @ [Buffer_from [of_nat (Suc n)]]) programId")
    case (Inr a)
    with Suc.prems have "address = a" "nonce = Suc n"
      by (simp_all add: Let_def del: of_nat_Suc)
    with Inr show ?thesis by auto
  next
    case (Inl e)
    show ?thesis
    proof (cases e)
      case (TypeError msg)
      with Inl Suc.prems show ?thesis by (simp add: Let_def del: of_nat_Suc)
    next
      case (Error msg)
      with Inl Suc.prems have "find_loop H isOnCurve seeds programId n = Inr (address, nonce)"
        by (simp add: Let_def del: of_nat_Suc)
      from Suc.IH[OF this] Inl Error show ?thesis
        by (auto simp: le_Suc_eq)
    qed
  qed
qed

lemma find_loop_Error:
  "find_loop H isOnCurve seeds programId n = Inl (Error msg) \<Longrightarrow>
     msg = ''Unable to find a viable program address nonce''
     \<and> (\<forall>m. 1 \<le> m \<and> m \<le> n \<longrightarrow>
          (\<exists>msg'. createProgramAddressSync H isOnCurve (seeds @ [Buffer_from [of_nat m]]) programId
             = Inl (Error msg')))"
proof (induction n)
  case 0
  then show ?case by simp
next
  case (Suc n)
  show ?case
  proof (cases "createProgramAddressSync H isOnCurve
                  (seeds @ [Buffer_from [of_nat (Suc n)]]) programId")
    case (Inr a)
    with Suc.prems show ?thesis by (simp add: Let_def del: of_nat_Suc)
  next
    case (Inl e)
    show ?thesis
    proof (cases e)
      case (TypeError msg')
      with Inl Suc.prems show ?thesis by (simp add: Let_def del: of_nat_Suc)
    next
      case (Error msg')
      with Inl Suc.prems have "find_loop H isOnCurve seeds programId n = Inl (Error msg)"
        by (simp add: Let_def del: of_nat_Suc)
      from Suc.IH[OF this] Inl Error show ?thesis
        by (auto simp: le_Suc_eq)
    qed
  qed
qed

lemma find_loop_TypeError:
  "find_loop H isOnCurve seeds programId n = Inl (TypeError msg) \<Longrightarrow>
     \<exists>m. 1 \<le> m \<and> m \<le> n
       \<and> createProgramAddressSync H isOnCurve (seeds @ [Buffer_from [of_nat m]]) programId
           = Inl (TypeError msg)"
proof (induction n)
  case 0
  then show ?case by simp
next
  case (Suc n)
  show ?case
  proof (cases "createProgramAddressSync H isOnCurve
                  (seeds @ [Buffer_from [of_nat (Suc n)]]) programId")
    case (Inr a)
    with Suc.prems show ?thesis by (simp add: Let_def del: of_nat_Suc)
  next
    case (Inl e)
    show ?thesis
    proof (cases e)
      case (TypeError msg')
      with Inl Suc.prems have "msg' = msg" by (simp add: Let_def del: of_nat_Suc)
      with Inl TypeError show ?thesis by auto
    next
      case (Error msg')
      with Inl Suc.prems have "find_loop H isOnCurve seeds programId n = Inl (TypeError msg)"
        by (simp add: Let_def del: of_nat_Suc)
      from Suc.IH[OF this] show ?thesis
        by (auto simp: le_Suc_eq)
    qed
  qed
qed

lemma createProgramAddressSync_short:
  assumes "digest32 H" and "\<forall>s \<in> set seeds. length s \<le> 32"
  shows "(isOnCurve (H (spec_preimage seeds programId))
            \<and> createProgramAddressSync H isOnCurve seeds programId =
                Inl (Error ''Invalid seeds, address must fall off the curve''))
       \<or> (\<not> isOnCurve (H (spec_preimage seeds programId))
            \<and> (\<exists>address. createProgramAddressSync H isOnCurve seeds programId = Inr address
                  \<and> PublicKey_toBuffer address = H (spec_preimage seeds programId)))"
proof -
  have len: "length (H (spec_preimage seeds programId)) = 32"
    using assms(1) by (simp add: digest32_def)
  have short: "\<not> (\<exists>s \<in> set seeds. 32 < length s)" using assms(2) by auto
  from createProgramAddressSync_eq[of H seeds programId isOnCurve, OF len] short
    new_PublicKey_digest[OF len]
  show ?thesis by auto
qed

lemma find_loop_traced_length:
  "find_loop_traced H isOnCurve seeds programId n = (r, tr) \<Longrightarrow>
     (\<forall>address nonce. r = Inr (address, nonce) \<longrightarrow> length tr = Suc n - nonce)
     \<and> (\<forall>msg. r = Inl (Error msg) \<longrightarrow> length tr = n)
     \<and> (\<forall>msg. r = Inl (TypeError msg) \<longrightarrow> tr \<noteq> [])"
proof (induction n arbitrary: r tr)
  case 0
  then show ?case by auto
next
  case (Suc n)
  obtain r' rest where rec: "find_loop_traced H isOnCurve seeds programId n = (r', rest)"
    by (cases "find_loop_traced H isOnCurve seeds programId n")
  have r': "r' = find_loop H isOnCurve seeds programId n"
    using fst_find_loop_traced[of H isOnCurve seeds programId n] rec by simp
  note ih = Suc.IH[OF rec]
  show ?case
  proof (cases "createProgramAddressSync H isOnCurve
                  (seeds @ [Buffer_from [of_nat (Suc n)]]) programId")
    case (Inr a)
    with Suc.prems show ?thesis
      by (auto simp: createProgramAddressSync_traced_eq Let_def simp del: of_nat_Suc)
  next
    case (Inl e)
    show ?thesis
    proof (cases e)
      case (TypeError msg)
      with Inl Suc.prems show ?thesis
        by (auto simp: createProgramAddressSync_traced_eq Let_def simp del: of_nat_Suc)
    next
      case (Error msg)
      with Inl Suc.prems rec have eq: "r = r'" "length tr = Suc (length rest)"
        by (auto simp: createProgramAddressSync_traced_eq Let_def simp del: of_nat_Suc)
      have "nonce \<le> n" if "r' = Inr (address, nonce)" for address nonce
        using find_loop_Inr[of H isOnCurve seeds programId n address nonce] that r' by simp
      with ih eq show ?thesis by (auto simp: Suc_diff_le)
    qed
  qed
qed

lemma length_concat_le:
  "\<forall>e \<in> set tr. length (snd e) \<le> 1 \<Longrightarrow> length (concat (map snd tr)) \<le> length tr"
  by (induction tr) auto

text \<open>The concrete instance of the parameters.\<close>

lemma example_cand:
  "example_curve (example_hash (spec_preimage ([] @ [[b]]) programId)) = (253 < unat b)"
  by (simp add: example_curve_def example_hash_def spec_preimage_def)

lemma set_take_rev_upt: "set (take k (rev [1..<Suc n])) \<subseteq> {1..n}"
proof -
  have "set (take k (rev [1..<Suc n])) \<subseteq> set (rev [1..<Suc n])" by (rule set_take_subset)
  then show ?thesis by auto
qed

lemma example_create:
  "createProgramAddressSync example_hash example_curve [Buffer_from [b]] programId =
     (if 253 < unat b then Inl (Error ''Invalid seeds, address must fall off the curve'')
      else new_PublicKey (example_hash (spec_preimage [[b]] programId)))"
proof -
  have len: "length (example_hash (spec_preimage [[b]] programId)) = 32"
    using digest32_example_hash by (simp add: digest32_def)
  have "example_curve (example_hash (spec_preimage [[b]] programId)) = (253 < unat b)"
    using example_cand[of b programId] by simp
  with createProgramAddressSync_eq[of example_hash "[[b]]" programId example_curve, OF len]
  show ?thesis by (simp add: Buffer_from_def)
qed

lemma example_new_PublicKey:
  "\<exists>k. new_PublicKey (example_hash m) = Inr k"
proof -
  have "length (example_hash m) = 32"
    using digest32_example_hash by (simp add: digest32_def)
  from new_PublicKey_digest[OF this] show ?thesis by blast
qed

text \<open>The seed list that \<open>associated\<close> builds.\<close>

lemma args_forEach_Inr:
  "list_all2 (\<lambda>arg b. case arg of Buf x \<Rightarrow> b = x
                       | Other a \<Rightarrow> \<exists>k. translateAddress a = Inr k \<and> b = PublicKey_toBuffer k)
     args comps \<Longrightarrow>
   args_forEach translateAddress seeds args = Inr (seeds @ comps)"
proof (induction args arbitrary: seeds comps)
  case Nil
  then show ?case by simp
next
  case (Cons arg args)
  from Cons.prems obtain b bs where comps: "comps = b # bs"
    and b: "case arg of Buf x \<Rightarrow> b = x
            | Other a \<Rightarrow> \<exists>k. translateAddress a = Inr k \<and> b = PublicKey_toBuffer k"
    and rest: "list_all2 (\<lambda>arg b. case arg of Buf x \<Rightarrow> b = x
                       | Other a \<Rightarrow> \<exists>k. translateAddress a = Inr k \<and> b = PublicKey_toBuffer k)
                 args bs"
    by (auto simp: list_all2_Cons1)
  from Cons.IH[OF rest] b comps show ?case
    by (cases arg) auto
qed

text \<open>
  What a call depends on: the digests of the buffers it hashes and the curve test on
  32-byte strings.
\<close>

lemma length_BN_toArray_32: "BN_toArray n 32 = Inr v \<Longrightarrow> length v = 32"
proof -
  assume a: "BN_toArray n 32 = Inr v"
  show ?thesis
  proof (cases "32 < byteLength n")
    case True
    with a show ?thesis by (simp add: BN_toArray_def Let_def del: byteLength.simps)
  next
    case False
    with a have "v = be_bytes 32 n"
      by (simp add: BN_toArray_def Let_def del: byteLength.simps)
    then show ?thesis by (simp only: length_be_bytes)
  qed
qed

lemma createProgramAddressSync_agree:
  assumes curve: "\<forall>v. length v = 32 \<longrightarrow> isOnCurve' v = isOnCurve v"
    and hash: "\<forall>m \<in> set (snd (createProgramAddressSync_traced H isOnCurve seeds programId)).
                 H' m = H m"
  shows "createProgramAddressSync_traced H' isOnCurve' seeds programId =
           createProgramAddressSync_traced H isOnCurve seeds programId"
proof (cases "\<exists>s \<in> set seeds. 32 < length s")
  case True
  then show ?thesis
    by (simp add: createProgramAddressSync_traced_eq createProgramAddressSync_def
          seeds_forEach_eq)
next
  case False
  with hash have h: "H' (spec_preimage seeds programId) = H (spec_preimage seeds programId)"
    by (simp add: createProgramAddressSync_traced_eq)
  have c: "isOnCurve' v = isOnCurve v" if "BN_toArray n 32 = Inr v" for n v
    using curve length_BN_toArray_32[OF that] by simp
  have "createProgramAddressSync H' isOnCurve' seeds programId =
          createProgramAddressSync H isOnCurve seeds programId"
    using False h c
    by (auto simp: createProgramAddressSync_def seeds_forEach_eq sha256_hex_def
          spec_preimage_def Let_def split: sum.splits)
  with False show ?thesis by (simp add: createProgramAddressSync_traced_eq)
qed

lemma find_loop_traced_agree:
  assumes curve: "\<forall>v. length v = 32 \<longrightarrow> isOnCurve' v = isOnCurve v"
  shows "\<forall>m \<in> set (concat (map snd (snd (find_loop_traced H isOnCurve seeds programId n)))).
            H' m = H m \<Longrightarrow>
         find_loop_traced H' isOnCurve' seeds programId n =
           find_loop_traced H isOnCurve seeds programId n"
proof (induction n)
  case 0
  show ?case by simp
next
  case (Suc n)
  let ?sw = "seeds @ [Buffer_from [of_nat (Suc n)]]"
  obtain r hashed where c: "createProgramAddressSync_traced H isOnCurve ?sw programId = (r, hashed)"
    by (cases "createProgramAddressSync_traced H isOnCurve ?sw programId")
  obtain r' rest where rec: "find_loop_traced H isOnCurve seeds programId n = (r', rest)"
    by (cases "find_loop_traced H isOnCurve seeds programId n")
  have tr: "snd (find_loop_traced H isOnCurve seeds programId (Suc n)) = [(Suc n, hashed)]
          \<or> snd (find_loop_traced H isOnCurve seeds programId (Suc n)) = (Suc n, hashed) # rest"
    using c rec by (auto simp: Let_def simp del: of_nat_Suc split: sum.splits error.splits)
  from tr Suc.prems have "\<forall>m \<in> set hashed. H' m = H m" by auto
  with c have "\<forall>m \<in> set (snd (createProgramAddressSync_traced H isOnCurve ?sw programId)).
                 H' m = H m" by simp
  from createProgramAddressSync_agree[OF curve this] c
  have c': "createProgramAddressSync_traced H' isOnCurve' ?sw programId = (r, hashed)" by simp
  show ?case
  proof (cases r)
    case (Inr a)
    with c c' show ?thesis by (simp add: Let_def del: of_nat_Suc)
  next
    case (Inl e)
    show ?thesis
    proof (cases e)
      case (TypeError msg)
      with Inl c c' show ?thesis by (simp add: Let_def del: of_nat_Suc)
    next
      case (Error msg)
      with Inl c rec
      have "snd (find_loop_traced H isOnCurve seeds programId (Suc n)) = (Suc n, hashed) # rest"
        by (simp add: Let_def del: of_nat_Suc)
      with Suc.prems rec
      have "\<forall>m \<in> set (concat (map snd (snd (find_loop_traced H isOnCurve seeds programId n)))).
              H' m = H m" by simp
      from Suc.IH[OF this] Error Inl c c' show ?thesis
        by (simp add: Let_def del: of_nat_Suc)
    qed
  qed
qed

lemma find_loop_traced_hashed:
  "m \<in> set (concat (map snd (snd (find_loop_traced H isOnCurve seeds programId n)))) \<Longrightarrow>
     \<exists>k. 1 \<le> k \<and> k \<le> n \<and> m = spec_preimage (seeds @ [[of_nat k]]) programId"
proof (induction n)
  case 0
  then show ?case by simp
next
  case (Suc n)
  let ?sw = "seeds @ [Buffer_from [of_nat (Suc n)]]"
  obtain r' rest where rec: "find_loop_traced H isOnCurve seeds programId n = (r', rest)"
    by (cases "find_loop_traced H isOnCurve seeds programId n")
  have "m \<in> set (snd (createProgramAddressSync_traced H isOnCurve ?sw programId))
      \<or> m \<in> set (concat (map snd rest))"
    using Suc.prems rec
    by (auto simp: Let_def simp del: of_nat_Suc split: sum.splits error.splits prod.splits)
  then show ?case
  proof
    assume "m \<in> set (snd (createProgramAddressSync_traced H isOnCurve ?sw programId))"
    then have "m = spec_preimage (seeds @ [[of_nat (Suc n)]]) programId"
      by (auto simp: createProgramAddressSync_traced_eq Buffer_from_def simp del: of_nat_Suc
            split: if_splits)
    then show ?thesis by (intro exI[of _ "Suc n"]) simp
  next
    assume "m \<in> set (concat (map snd rest))"
    with rec Suc.IH obtain k where "1 \<le> k" "k \<le> n"
      "m = spec_preimage (seeds @ [[of_nat k]]) programId" by auto
    then show ?thesis by (intro exI[of _ k]) simp
  qed
qed

lemma spec_preimage_not_Nil: "spec_preimage seeds programId \<noteq> []"
  by (simp add: spec_preimage_def Buffer_from_string_def)

lemma example_find:
  "\<exists>address. findProgramAddressSync example_hash example_curve [] (PublicKey 0) =
     Inr (address, 253)"
proof -
  let ?create = "\<lambda>n. createProgramAddressSync example_hash example_curve
                   [Buffer_from [of_nat n]] (PublicKey 0)"
  let ?loop = "find_loop example_hash example_curve [] (PublicKey 0)"
  have c255: "?create (Suc 254) = Inl (Error ''Invalid seeds, address must fall off the curve'')"
    by (simp only: example_create) simp
  have c254: "?create (Suc 253) = Inl (Error ''Invalid seeds, address must fall off the curve'')"
    by (simp only: example_create) simp
  obtain address where c253: "?create (Suc 252) = Inr address"
    using example_new_PublicKey[of "spec_preimage [[of_nat (Suc 252)]] (PublicKey 0)"]
    by (simp only: example_create) auto
  have "?loop 255 = ?loop (Suc 254)" by simp
  also have "\<dots> = ?loop 254"
    by (simp only: find_loop.simps Let_def append_Nil c255 sum.case error.case)
  also have "\<dots> = ?loop (Suc 253)" by simp
  also have "\<dots> = ?loop 253"
    by (simp only: find_loop.simps Let_def append_Nil c254 sum.case error.case)
  also have "\<dots> = ?loop (Suc 252)" by simp
  also have "\<dots> = Inr (address, Suc 252)"
    by (simp only: find_loop.simps Let_def append_Nil c253 sum.case error.case)
  finally show ?thesis by (simp add: findProgramAddressSync_def)
qed

lemma findProgramAddressSync_winner:
  assumes "digest32 H" and "\<forall>s \<in> set seeds. length s \<le> 32"
    and "findProgramAddressSync H isOnCurve seeds programId = Inr (address, nonce)"
  shows "1 \<le> nonce \<and> nonce \<le> 255
       \<and> PublicKey_toBuffer address = H (spec_preimage (seeds @ [[of_nat nonce]]) programId)
       \<and> \<not> isOnCurve (H (spec_preimage (seeds @ [[of_nat nonce]]) programId))
       \<and> (\<forall>k. nonce < k \<and> k \<le> 255 \<longrightarrow>
            isOnCurve (H (spec_preimage (seeds @ [[of_nat k]]) programId)))"
proof -
  let ?cand = "\<lambda>k. H (spec_preimage (seeds @ [[of_nat k]]) programId)"
  let ?create = "\<lambda>k. createProgramAddressSync H isOnCurve
                   (seeds @ [Buffer_from [of_nat k]]) programId"
  have short: "\<forall>s \<in> set (seeds @ [[of_nat k :: byte]]). length s \<le> 32" for k :: nat
    using assms(2) by simp
  have step: "(isOnCurve (?cand k)
                 \<and> ?create k = Inl (Error ''Invalid seeds, address must fall off the curve''))
            \<or> (\<not> isOnCurve (?cand k)
                 \<and> (\<exists>a. ?create k = Inr a \<and> PublicKey_toBuffer a = ?cand k))" for k
    using createProgramAddressSync_short[OF assms(1) short, of isOnCurve k programId]
    by (simp add: Buffer_from_def)
  from assms(3) have "find_loop H isOnCurve seeds programId 255 = Inr (address, nonce)"
    by (simp add: findProgramAddressSync_def)
  from find_loop_Inr[OF this]
  have n: "1 \<le> nonce" "nonce \<le> 255" and c: "?create nonce = Inr address"
    and gt: "\<forall>m. nonce < m \<and> m \<le> 255 \<longrightarrow> (\<exists>msg. ?create m = Inl (Error msg))"
    by simp_all
  from step[of nonce] c have "\<not> isOnCurve (?cand nonce)"
    and "PublicKey_toBuffer address = ?cand nonce" by auto
  moreover have "isOnCurve (?cand k)" if "nonce < k \<and> k \<le> 255" for k
  proof -
    from gt that obtain msg where "?create k = Inl (Error msg)" by blast
    with step[of k] show ?thesis by auto
  qed
  ultimately show ?thesis using n by blast
qed

section \<open>Program-derived addresses are off the curve\<close>

text \<open>
  Claim C1. For every seed list whose seeds are at most 32 bytes long and every program
  id: when the candidate digest is on the curve, \<open>createProgramAddressSync\<close> fails with
  the error "Invalid seeds, address must fall off the curve"; and the bytes of every
  address it returns are off the curve.
\<close>

theorem derive_never_on_curve:
  assumes "digest32 H" and "\<forall>s \<in> set seeds. length s \<le> 32"
  shows "(isOnCurve (H (spec_preimage seeds programId)) \<longrightarrow>
            createProgramAddressSync H isOnCurve seeds programId =
              Inl (Error ''Invalid seeds, address must fall off the curve''))
       \<and> (\<forall>address. createProgramAddressSync H isOnCurve seeds programId = Inr address \<longrightarrow>
            \<not> isOnCurve (PublicKey_toBuffer address))"
proof -
  let ?d = "H (spec_preimage seeds programId)"
  have len: "length ?d = 32" using assms(1) by (simp add: digest32_def)
  have short: "\<not> (\<exists>s \<in> set seeds. 32 < length s)" using assms(2) by auto
  note eq = createProgramAddressSync_eq[of H seeds programId isOnCurve, OF len]
  have on: "isOnCurve ?d \<longrightarrow> createProgramAddressSync H isOnCurve seeds programId =
              Inl (Error ''Invalid seeds, address must fall off the curve'')"
    using eq short by simp
  have off: "\<not> isOnCurve (PublicKey_toBuffer address)"
    if ok: "createProgramAddressSync H isOnCurve seeds programId = Inr address" for address
  proof -
    from ok eq short have nc: "\<not> isOnCurve ?d" and k: "new_PublicKey ?d = Inr address"
      by (auto split: if_splits)
    from new_PublicKey_digest[OF len] k have "PublicKey_toBuffer address = ?d" by auto
    with nc show ?thesis by simp
  qed
  from on off show ?thesis by blast
qed

theorem derive_never_on_curve_witness:
  "createProgramAddressSync example_hash example_curve [[255]] (PublicKey 0) =
     Inl (Error ''Invalid seeds, address must fall off the curve'')
   \<and> (\<exists>address. createProgramAddressSync example_hash example_curve [[1, 2]] (PublicKey 0) =
         Inr address \<and> \<not> example_curve (PublicKey_toBuffer address))"
proof -
  have h1: "\<forall>s \<in> set [[255 :: byte]]. length s \<le> 32" by simp
  have h2: "\<forall>s \<in> set [[1, 2 :: byte]]. length s \<le> 32" by simp
  have on: "example_curve (example_hash (spec_preimage [[255]] (PublicKey 0)))"
    by (simp add: example_curve_def example_hash_def spec_preimage_def)
  have off: "\<not> example_curve (example_hash (spec_preimage [[1, 2]] (PublicKey 0)))"
    by (simp add: example_curve_def example_hash_def spec_preimage_def)
  have len: "length (example_hash (spec_preimage [[1, 2]] (PublicKey 0))) = 32"
    using digest32_example_hash by (simp add: digest32_def)
  obtain address where
    ok: "createProgramAddressSync example_hash example_curve [[1, 2]] (PublicKey 0) = Inr address"
    using createProgramAddressSync_eq[of example_hash "[[1, 2]]" "PublicKey 0" example_curve, OF len]
      new_PublicKey_digest[OF len] off
    by auto
  from derive_never_on_curve[OF digest32_example_hash h1, of example_curve "PublicKey 0"] on
  have "createProgramAddressSync example_hash example_curve [[255]] (PublicKey 0) =
          Inl (Error ''Invalid seeds, address must fall off the curve'')"
    by simp
  moreover from derive_never_on_curve[OF digest32_example_hash h2, of example_curve "PublicKey 0"] ok
  have "\<not> example_curve (PublicKey_toBuffer address)" by simp
  ultimately show ?thesis using ok by blast
qed

section \<open>The derived address is the digest of the preimage\<close>

text \<open>
  Claim C3. For every seed list whose seeds are at most 32 bytes long and every program
  id (whose buffer is always 32 bytes), an address returned by
  \<open>createProgramAddressSync\<close> has as its bytes the digest of the seeds concatenated in
  list order, followed by the program id's 32 bytes, followed by
  "ProgramDerivedAddress". In particular, with no seeds and the all-zero program id the
  result is the digest of 32 zero bytes followed by "ProgramDerivedAddress".
\<close>

theorem derive_is_digest_of_preimage:
  assumes "digest32 H" and "\<forall>s \<in> set seeds. length s \<le> 32"
  shows "(\<forall>address. createProgramAddressSync H isOnCurve seeds programId = Inr address \<longrightarrow>
            PublicKey_toBuffer address =
              H (concat seeds @ PublicKey_toBuffer programId
                   @ Buffer_from_string ''ProgramDerivedAddress''))
       \<and> length (PublicKey_toBuffer programId) = 32
       \<and> (\<forall>address. createProgramAddressSync H isOnCurve [] (PublicKey 0) = Inr address \<longrightarrow>
            PublicKey_toBuffer address =
              H (replicate 32 0 @ Buffer_from_string ''ProgramDerivedAddress''))"
proof -
  have main: "PublicKey_toBuffer address = H (spec_preimage sds pid)"
    if ok: "createProgramAddressSync H isOnCurve sds pid = Inr address"
    for sds pid address
  proof -
    have len: "length (H (spec_preimage sds pid)) = 32"
      using assms(1) by (simp add: digest32_def)
    from ok createProgramAddressSync_eq[of H sds pid isOnCurve, OF len]
    have k: "new_PublicKey (H (spec_preimage sds pid)) = Inr address"
      by (auto split: if_splits)
    with new_PublicKey_digest[OF len] show ?thesis by auto
  qed
  have a: "\<forall>address. createProgramAddressSync H isOnCurve seeds programId = Inr address \<longrightarrow>
            PublicKey_toBuffer address =
              H (concat seeds @ PublicKey_toBuffer programId
                   @ Buffer_from_string ''ProgramDerivedAddress'')"
    using main[of seeds programId] by (simp add: spec_preimage_def)
  have c: "\<forall>address. createProgramAddressSync H isOnCurve [] (PublicKey 0) = Inr address \<longrightarrow>
            PublicKey_toBuffer address =
              H (replicate 32 0 @ Buffer_from_string ''ProgramDerivedAddress'')"
    using main[of "[]" "PublicKey 0"]
    by (simp add: spec_preimage_def PublicKey_toBuffer_zero)
  from a c show ?thesis by (simp add: length_PublicKey_toBuffer)
qed

theorem derive_is_digest_of_preimage_witness:
  "\<exists>address. createProgramAddressSync example_hash example_curve [[1, 2], [3]] (PublicKey 0)
       = Inr address
     \<and> PublicKey_toBuffer address =
         example_hash ([1, 2, 3] @ PublicKey_toBuffer (PublicKey 0)
                         @ Buffer_from_string ''ProgramDerivedAddress'')"
proof -
  have h: "\<forall>s \<in> set [[1, 2], [3 :: byte]]. length s \<le> 32" by simp
  have off: "\<not> example_curve (example_hash (spec_preimage [[1, 2], [3]] (PublicKey 0)))"
    by (simp add: example_curve_def example_hash_def spec_preimage_def)
  have len: "length (example_hash (spec_preimage [[1, 2], [3]] (PublicKey 0))) = 32"
    using digest32_example_hash by (simp add: digest32_def)
  obtain address where
    ok: "createProgramAddressSync example_hash example_curve [[1, 2], [3]] (PublicKey 0)
           = Inr address"
    using createProgramAddressSync_eq[of example_hash "[[1, 2], [3]]" "PublicKey 0" example_curve,
        OF len] new_PublicKey_digest[OF len] off
    by auto
  from derive_is_digest_of_preimage[OF digest32_example_hash h, of example_curve "PublicKey 0"] ok
  have "PublicKey_toBuffer address =
          example_hash (concat [[1, 2], [3]] @ PublicKey_toBuffer (PublicKey 0)
                          @ Buffer_from_string ''ProgramDerivedAddress'')"
    by blast
  with ok show ?thesis by auto
qed

section \<open>Seeds that are too long\<close>

text \<open>
  Claim C4. For every seed list with at least one seed longer than 32 bytes, and every
  program id, hash and curve predicate, \<open>createProgramAddressSync\<close> fails with the
  TypeError "Max seed length exceeded", and nothing has been hashed: the log of hashed
  buffers is empty. The length error therefore wins whatever the curve test would say.
\<close>

theorem derive_seed_too_long:
  assumes "\<exists>s \<in> set seeds. 32 < length s"
  shows "createProgramAddressSync H isOnCurve seeds programId =
           Inl (TypeError ''Max seed length exceeded'')
       \<and> createProgramAddressSync_traced H isOnCurve seeds programId =
           (Inl (TypeError ''Max seed length exceeded''), [])"
proof -
  have "createProgramAddressSync H isOnCurve seeds programId =
           Inl (TypeError ''Max seed length exceeded'')"
    using assms by (simp add: createProgramAddressSync_def seeds_forEach_eq)
  then show ?thesis
    using assms by (simp add: createProgramAddressSync_traced_eq)
qed

theorem derive_seed_too_long_witness:
  "createProgramAddressSync_traced example_hash (\<lambda>v. True) [[1], replicate 33 0] (PublicKey 0) =
     (Inl (TypeError ''Max seed length exceeded''), [])"
proof -
  have "\<exists>s \<in> set [[1], replicate 33 (0 :: byte)]. 32 < length s" by simp
  from derive_seed_too_long[OF this] show ?thesis by blast
qed

section \<open>Seed boundaries are not part of the preimage\<close>

text \<open>
  Claim C10. Splitting a seed of at most 32 bytes into two consecutive seeds, anywhere
  in the list, does not change the outcome of \<open>createProgramAddressSync\<close> (the same
  address or the same error); in particular appending an empty seed changes nothing.
\<close>

theorem derive_ignores_seed_boundaries:
  assumes "length (s1 @ s2) \<le> 32"
  shows "createProgramAddressSync H isOnCurve (xs @ [s1 @ s2] @ ys) programId =
           createProgramAddressSync H isOnCurve (xs @ [s1, s2] @ ys) programId
       \<and> createProgramAddressSync H isOnCurve (seeds @ [[]]) programId =
           createProgramAddressSync H isOnCurve seeds programId"
proof -
  have "(\<exists>s \<in> set (xs @ [s1 @ s2] @ ys). 32 < length s) =
        (\<exists>s \<in> set (xs @ [s1, s2] @ ys). 32 < length s)"
    using assms by auto
  then show ?thesis
    by (simp add: createProgramAddressSync_def seeds_forEach_eq)
qed

theorem derive_ignores_seed_boundaries_witness:
  "createProgramAddressSync example_hash example_curve [[9], [1, 2, 3], [7]] (PublicKey 0) =
     createProgramAddressSync example_hash example_curve [[9], [1], [2, 3], [7]] (PublicKey 0)"
proof -
  have "length ([1 :: byte] @ [2, 3]) \<le> 32" by simp
  from derive_ignores_seed_boundaries[OF this, of example_hash example_curve "[[9]]" "[[7]]"]
  show ?thesis by simp
qed

section \<open>createWithSeedSync\<close>

text \<open>
  Claim C9. For every input, \<open>createWithSeedSync\<close> returns an address, and its bytes
  are the digest of the 32 bytes of \<open>fromPublicKey\<close>, then the seed bytes, then the 32
  bytes of \<open>programId\<close>: no bound on the seed's length, no domain constant, and no
  curve test, so that a digest on the curve is returned as it is.
\<close>

theorem createWithSeedSync_digest:
  assumes "digest32 H"
  shows "\<exists>address. createWithSeedSync H fromPublicKey seed programId = Inr address
       \<and> PublicKey_toBuffer address =
           H (PublicKey_toBuffer fromPublicKey @ seed @ PublicKey_toBuffer programId)
       \<and> (isOnCurve (H (PublicKey_toBuffer fromPublicKey @ seed @ PublicKey_toBuffer programId))
            \<longrightarrow> isOnCurve (PublicKey_toBuffer address))
       \<and> length (PublicKey_toBuffer fromPublicKey) = 32
       \<and> length (PublicKey_toBuffer programId) = 32"
proof -
  let ?m = "PublicKey_toBuffer fromPublicKey @ seed @ PublicKey_toBuffer programId"
  have len: "length (H ?m) = 32" using assms by (simp add: digest32_def)
  from new_PublicKey_digest[OF len] obtain k where
    k: "new_PublicKey (H ?m) = Inr k" "PublicKey_toBuffer k = H ?m" by blast
  then show ?thesis
    by (simp add: createWithSeedSync_def sha256_digest_def Buffer_from_def
          length_PublicKey_toBuffer)
qed

theorem createWithSeedSync_digest_witness:
  "\<exists>address. createWithSeedSync (\<lambda>m. 255 # replicate 31 0) (PublicKey 5) (replicate 40 7)
         (PublicKey 0) = Inr address
     \<and> PublicKey_toBuffer address = 255 # replicate 31 0
     \<and> example_curve (PublicKey_toBuffer address)"
proof -
  have d: "digest32 (\<lambda>m. 255 # replicate 31 0)" by (simp add: digest32_def)
  have "example_curve (255 # replicate 31 0)" by (simp add: example_curve_def)
  with createWithSeedSync_digest[OF d, of "PublicKey 5" "replicate 40 7" "PublicKey 0" example_curve]
  show ?thesis by auto
qed

section \<open>The search returns a valid pair or reports exhaustion\<close>

text \<open>
  Claim C2. For every seed list whose seeds are at most 32 bytes long and every program
  id: when every nonce from 1 to 255 gives a candidate on the curve,
  \<open>findProgramAddressSync\<close> fails with the error "Unable to find a viable program
  address nonce"; otherwise it returns an address and a nonce between 1 and 255 such
  that \<open>createProgramAddressSync\<close> on the seeds followed by the nonce as a single byte
  succeeds with that address, which is off the curve.
\<close>

theorem find_returns_or_exhausts:
  assumes "digest32 H" and "\<forall>s \<in> set seeds. length s \<le> 32"
  shows "if \<forall>nonce \<in> {1..255}.
              isOnCurve (H (spec_preimage (seeds @ [[of_nat nonce]]) programId))
         then findProgramAddressSync H isOnCurve seeds programId =
                Inl (Error ''Unable to find a viable program address nonce'')
         else \<exists>address nonce.
                findProgramAddressSync H isOnCurve seeds programId = Inr (address, nonce)
                \<and> 1 \<le> nonce \<and> nonce \<le> 255
                \<and> createProgramAddressSync H isOnCurve (seeds @ [[of_nat nonce]]) programId
                    = Inr address
                \<and> \<not> isOnCurve (PublicKey_toBuffer address)"
proof -
  let ?cand = "\<lambda>nonce. H (spec_preimage (seeds @ [[of_nat nonce]]) programId)"
  let ?create = "\<lambda>nonce. createProgramAddressSync H isOnCurve
                   (seeds @ [Buffer_from [of_nat nonce]]) programId"
  have short: "\<forall>s \<in> set (seeds @ [[of_nat nonce :: byte]]). length s \<le> 32" for nonce :: nat
    using assms(2) by simp
  have step: "(isOnCurve (?cand nonce)
                 \<and> ?create nonce = Inl (Error ''Invalid seeds, address must fall off the curve''))
            \<or> (\<not> isOnCurve (?cand nonce)
                 \<and> (\<exists>address. ?create nonce = Inr address
                       \<and> PublicKey_toBuffer address = ?cand nonce))" for nonce
    using createProgramAddressSync_short[OF assms(1) short, of isOnCurve nonce programId]
    by (simp add: Buffer_from_def)
  show ?thesis
  proof (cases "find_loop H isOnCurve seeds programId 255")
    case (Inr p)
    obtain address nonce where p: "p = (address, nonce)" by (cases p)
    from find_loop_Inr[of H isOnCurve seeds programId 255 address nonce] Inr p
    have n: "1 \<le> nonce" "nonce \<le> 255" and c: "?create nonce = Inr address" by simp_all
    from step[of nonce] c have off: "\<not> isOnCurve (?cand nonce)"
      and b: "PublicKey_toBuffer address = ?cand nonce" by auto
    from n off have "\<not> (\<forall>nonce \<in> {1..255}. isOnCurve (?cand nonce))" by auto
    moreover have "createProgramAddressSync H isOnCurve (seeds @ [[of_nat nonce]]) programId
                     = Inr address"
      using c by (simp add: Buffer_from_def)
    ultimately show ?thesis using Inr p n off b
      by (auto simp: findProgramAddressSync_def)
  next
    case (Inl e)
    show ?thesis
    proof (cases e)
      case (TypeError msg)
      from find_loop_TypeError[of H isOnCurve seeds programId 255 msg] Inl TypeError
      obtain m where "?create m = Inl (TypeError msg)" by auto
      with step[of m] show ?thesis by auto
    next
      case (Error msg)
      from find_loop_Error[of H isOnCurve seeds programId 255 msg] Inl Error
      have msg: "msg = ''Unable to find a viable program address nonce''"
        and all: "\<forall>m. 1 \<le> m \<and> m \<le> 255 \<longrightarrow> (\<exists>msg'. ?create m = Inl (Error msg'))"
        by simp_all
      have "isOnCurve (?cand m)" if "m \<in> {1..255}" for m
      proof -
        from that all obtain msg' where "?create m = Inl (Error msg')" by auto
        with step[of m] show ?thesis by auto
      qed
      with Inl Error msg show ?thesis by (simp add: findProgramAddressSync_def)
    qed
  qed
qed

theorem find_returns_or_exhausts_witness:
  "(\<exists>address nonce.
       findProgramAddressSync example_hash example_curve [] (PublicKey 0) = Inr (address, nonce)
       \<and> 1 \<le> nonce \<and> nonce \<le> 255
       \<and> createProgramAddressSync example_hash example_curve ([] @ [[of_nat nonce]]) (PublicKey 0)
           = Inr address
       \<and> \<not> example_curve (PublicKey_toBuffer address))
   \<and> findProgramAddressSync example_hash (\<lambda>v. True) [[7]] (PublicKey 0) =
       Inl (Error ''Unable to find a viable program address nonce'')"
proof -
  have h1: "\<forall>s \<in> set ([] :: bytes list). length s \<le> 32" by simp
  have h2: "\<forall>s \<in> set [[7 :: byte]]. length s \<le> 32" by simp
  have "\<not> example_curve (example_hash (spec_preimage ([] @ [[of_nat 1]]) (PublicKey 0)))"
    by (simp only: example_cand) simp
  then have ne: "\<not> (\<forall>nonce \<in> {1..255}.
       example_curve (example_hash (spec_preimage ([] @ [[of_nat nonce]]) (PublicKey 0))))"
    by (metis atLeastAtMost_iff le_refl one_le_numeral)
  from find_returns_or_exhausts[OF digest32_example_hash h1, of example_curve "PublicKey 0"] ne
  have a: "\<exists>address nonce.
       findProgramAddressSync example_hash example_curve [] (PublicKey 0) = Inr (address, nonce)
       \<and> 1 \<le> nonce \<and> nonce \<le> 255
       \<and> createProgramAddressSync example_hash example_curve ([] @ [[of_nat nonce]]) (PublicKey 0)
           = Inr address
       \<and> \<not> example_curve (PublicKey_toBuffer address)"
    by (simp only: if_False)
  from find_returns_or_exhausts[OF digest32_example_hash h2, of "\<lambda>v. True" "PublicKey 0"]
  have b: "findProgramAddressSync example_hash (\<lambda>v. True) [[7]] (PublicKey 0) =
       Inl (Error ''Unable to find a viable program address nonce'')"
    by simp
  from a b show ?thesis by blast
qed

section \<open>A seed-length error ends the search\<close>

text \<open>
  Claim C5. When a seed supplied by the caller is longer than 32 bytes,
  \<open>findProgramAddressSync\<close> fails with the TypeError "Max seed length exceeded" raised
  by \<open>createProgramAddressSync\<close>; the loop body runs once, at nonce 255, hashes
  nothing, and the nonce is not decremented.
\<close>

theorem find_propagates_seed_length_error:
  assumes "\<exists>s \<in> set seeds. 32 < length s"
  shows "findProgramAddressSync H isOnCurve seeds programId =
           Inl (TypeError ''Max seed length exceeded'')
       \<and> findProgramAddressSync_traced H isOnCurve seeds programId =
           (Inl (TypeError ''Max seed length exceeded''), [(255, [])])"
proof -
  have long: "\<exists>s \<in> set (seeds @ [Buffer_from [of_nat (Suc 254)]]). 32 < length s"
    using assms by auto
  then have c: "createProgramAddressSync H isOnCurve
                  (seeds @ [Buffer_from [of_nat (Suc 254)]]) programId =
                Inl (TypeError ''Max seed length exceeded'')"
    by (simp only: createProgramAddressSync_def seeds_forEach_eq if_True sum.case)
  have t: "createProgramAddressSync_traced H isOnCurve
                  (seeds @ [Buffer_from [of_nat (Suc 254)]]) programId =
                (Inl (TypeError ''Max seed length exceeded''), [])"
    using long c by (simp only: createProgramAddressSync_traced_eq if_True)
  have n: "(255 :: nat) = Suc 254" by simp
  have "find_loop H isOnCurve seeds programId (Suc 254) =
          Inl (TypeError ''Max seed length exceeded'')"
    by (simp only: find_loop.simps Let_def c sum.case error.case)
  moreover have "find_loop_traced H isOnCurve seeds programId (Suc 254) =
          (Inl (TypeError ''Max seed length exceeded''), [(Suc 254, [])])"
    by (simp only: find_loop_traced.simps Let_def t prod.case sum.case error.case)
  ultimately show ?thesis
    by (simp only: findProgramAddressSync_def findProgramAddressSync_traced_def n)
qed

theorem find_propagates_seed_length_error_witness:
  "findProgramAddressSync_traced example_hash example_curve [[1], replicate 33 0] (PublicKey 0) =
     (Inl (TypeError ''Max seed length exceeded''), [(255, [])])"
proof -
  have "\<exists>s \<in> set [[1], replicate 33 (0 :: byte)]. 32 < length s" by simp
  from find_propagates_seed_length_error[OF this] show ?thesis by blast
qed

section \<open>The search is bounded and takes the first match\<close>

text \<open>
  Claim C8. The loop of \<open>findProgramAddressSync\<close> always ends, after at most 255
  iterations and at most 255 hash computations. The nonces tried are an initial part of
  255, 254, ..., 1, so 0 is never tried. When an address is returned, its nonce is the
  last one tried, \<open>createProgramAddressSync\<close> succeeds on it, and every greater nonce
  failed with a plain error; when the search is exhausted, all of 255 down to 1 were
  tried.
\<close>

theorem find_bounded_first_match:
  assumes "findProgramAddressSync_traced H isOnCurve seeds programId = (r, tr)"
  shows "r = findProgramAddressSync H isOnCurve seeds programId
       \<and> length tr \<le> 255
       \<and> length (concat (map snd tr)) \<le> 255
       \<and> map fst tr = take (length tr) (rev [1..<256])
       \<and> 0 \<notin> set (map fst tr)
       \<and> (\<forall>address nonce. r = Inr (address, nonce) \<longrightarrow>
            length tr = 256 - nonce
            \<and> createProgramAddressSync H isOnCurve (seeds @ [[of_nat nonce]]) programId
                = Inr address
            \<and> (\<forall>m. nonce < m \<and> m \<le> 255 \<longrightarrow>
                 (\<exists>msg. createProgramAddressSync H isOnCurve (seeds @ [[of_nat m]]) programId
                    = Inl (Error msg))))
       \<and> (\<forall>msg. r = Inl (Error msg) \<longrightarrow>
            map fst tr = rev [1..<256]
            \<and> msg = ''Unable to find a viable program address nonce'')"
proof -
  from assms have t: "find_loop_traced H isOnCurve seeds programId 255 = (r, tr)"
    by (simp add: findProgramAddressSync_traced_def)
  have r: "r = find_loop H isOnCurve seeds programId 255"
    using fst_find_loop_traced[of H isOnCurve seeds programId 255] t by simp
  from find_loop_traced_shape[OF t]
  have len: "length tr \<le> 255"
    and cands: "map fst tr = take (length tr) (rev [1..<Suc 255])"
    and one: "\<forall>e \<in> set tr. length (snd e) \<le> 1" by simp_all
  from length_concat_le[OF one] len have hashes: "length (concat (map snd tr)) \<le> 255"
    by simp
  have zero: "0 \<notin> set (map fst tr)"
    using set_take_rev_upt[of "length tr" 255] cands by auto
  from find_loop_traced_length[OF t]
  have l1: "\<forall>address nonce. r = Inr (address, nonce) \<longrightarrow> length tr = Suc 255 - nonce"
    and l2: "\<forall>msg. r = Inl (Error msg) \<longrightarrow> length tr = 255" by simp_all
  have found: "length tr = 256 - nonce
       \<and> createProgramAddressSync H isOnCurve (seeds @ [[of_nat nonce]]) programId = Inr address
       \<and> (\<forall>m. nonce < m \<and> m \<le> 255 \<longrightarrow>
            (\<exists>msg. createProgramAddressSync H isOnCurve (seeds @ [[of_nat m]]) programId
               = Inl (Error msg)))"
    if "r = Inr (address, nonce)" for address nonce
    using find_loop_Inr[of H isOnCurve seeds programId 255 address nonce] that r l1
    by (simp add: Buffer_from_def)
  have exh: "map fst tr = rev [1..<256] \<and> msg = ''Unable to find a viable program address nonce''"
    if "r = Inl (Error msg)" for msg
  proof -
    from that l2 have "length tr = 255" by simp
    with cands have "map fst tr = rev [1..<256]" by simp
    moreover from find_loop_Error[of H isOnCurve seeds programId 255 msg] that r
    have "msg = ''Unable to find a viable program address nonce''" by simp
    ultimately show ?thesis by simp
  qed
  from r len hashes cands zero found exh show ?thesis
    by (simp add: findProgramAddressSync_def)
qed

theorem find_bounded_first_match_witness:
  "\<exists>address tr.
     findProgramAddressSync_traced example_hash example_curve [] (PublicKey 0) =
       (Inr (address, 253), tr)
     \<and> length tr = 3
     \<and> map fst tr = [255, 254, 253]
     \<and> length (concat (map snd tr)) \<le> 255"
proof -
  let ?create = "\<lambda>n. createProgramAddressSync example_hash example_curve
                   [Buffer_from [of_nat n]] (PublicKey 0)"
  let ?loop = "find_loop example_hash example_curve [] (PublicKey 0)"
  have c255: "?create (Suc 254) = Inl (Error ''Invalid seeds, address must fall off the curve'')"
    by (simp only: example_create) simp
  have c254: "?create (Suc 253) = Inl (Error ''Invalid seeds, address must fall off the curve'')"
    by (simp only: example_create) simp
  obtain address where c253: "?create (Suc 252) = Inr address"
    using example_new_PublicKey[of "spec_preimage [[of_nat (Suc 252)]] (PublicKey 0)"]
    by (simp only: example_create) auto
  have "?loop 255 = ?loop (Suc 254)" by simp
  also have "\<dots> = ?loop 254"
    by (simp only: find_loop.simps Let_def append_Nil c255 sum.case error.case)
  also have "\<dots> = ?loop (Suc 253)" by simp
  also have "\<dots> = ?loop 253"
    by (simp only: find_loop.simps Let_def append_Nil c254 sum.case error.case)
  also have "\<dots> = ?loop (Suc 252)" by simp
  also have "\<dots> = Inr (address, Suc 252)"
    by (simp only: find_loop.simps Let_def append_Nil c253 sum.case error.case)
  finally have f: "findProgramAddressSync example_hash example_curve [] (PublicKey 0) =
                  Inr (address, 253)"
    by (simp add: findProgramAddressSync_def)
  obtain r tr where
    t: "findProgramAddressSync_traced example_hash example_curve [] (PublicKey 0) = (r, tr)"
    by (cases "findProgramAddressSync_traced example_hash example_curve [] (PublicKey 0)")
  from find_bounded_first_match[OF t] f
  have r: "r = Inr (address, 253)" and len: "length tr = 256 - 253"
    and cands: "map fst tr = take (length tr) (rev [1..<256])"
    and h: "length (concat (map snd tr)) \<le> 255"
    by simp_all
  from len have l3: "length tr = 3" by simp
  have "[1..<253 + 3] = [1..<253] @ [253..<253 + 3]"
    by (rule upt_add_eq_append) simp
  then have "[1..<256] = [1..<253] @ [253, 254, 255]" by simp
  then have "take 3 (rev [1..<256]) = [255, 254, 253]" by simp
  with cands l3 have "map fst tr = [255, 254, 253]" by simp
  with t r l3 h show ?thesis by auto
qed

section \<open>Determinism\<close>

text \<open>
  Claim C6. Both operations are deterministic. A call sees its collaborators only
  through the answers they give, so consider two calls on the same seeds and program
  id: one in which the hash is \<open>H\<close> and the curve test \<open>isOnCurve\<close>, one in which
  they are \<open>H'\<close> and \<open>isOnCurve'\<close>. When the two hashes give the same digest for every
  buffer that the first call hashes, and the two curve tests agree on every 32-byte
  string, then \<open>createProgramAddressSync\<close> has the same outcome in both calls, and so
  has \<open>findProgramAddressSync\<close>: the same address and the same nonce, or the same
  error, after the same iterations. The outcome depends on nothing else. Moreover the
  winning nonce is fixed by the input: with seeds of at most 32 bytes and 32-byte
  digests it is the greatest nonce from 1 to 255 whose candidate is off the curve, and
  the address is that candidate.
\<close>

theorem derivation_deterministic:
  assumes "\<forall>v. length v = 32 \<longrightarrow> isOnCurve' v = isOnCurve v"
    and "\<forall>m \<in> set (snd (createProgramAddressSync_traced H isOnCurve seeds programId)).
           H' m = H m"
    and "\<forall>m \<in> set (concat (map snd
             (snd (findProgramAddressSync_traced H isOnCurve seeds programId)))).
           H' m = H m"
  shows "createProgramAddressSync H' isOnCurve' seeds programId =
           createProgramAddressSync H isOnCurve seeds programId
       \<and> findProgramAddressSync H' isOnCurve' seeds programId =
           findProgramAddressSync H isOnCurve seeds programId
       \<and> findProgramAddressSync_traced H' isOnCurve' seeds programId =
           findProgramAddressSync_traced H isOnCurve seeds programId
       \<and> (digest32 H \<and> (\<forall>s \<in> set seeds. length s \<le> 32) \<longrightarrow>
            (\<forall>address nonce.
               findProgramAddressSync H isOnCurve seeds programId = Inr (address, nonce) \<longrightarrow>
                 1 \<le> nonce \<and> nonce \<le> 255
                 \<and> PublicKey_toBuffer address =
                     H (spec_preimage (seeds @ [[of_nat nonce]]) programId)
                 \<and> \<not> isOnCurve (H (spec_preimage (seeds @ [[of_nat nonce]]) programId))
                 \<and> (\<forall>k. nonce < k \<and> k \<le> 255 \<longrightarrow>
                      isOnCurve (H (spec_preimage (seeds @ [[of_nat k]]) programId)))))"
proof -
  from createProgramAddressSync_agree[OF assms(1) assms(2)]
  have "fst (createProgramAddressSync_traced H' isOnCurve' seeds programId) =
          fst (createProgramAddressSync_traced H isOnCurve seeds programId)" by simp
  then have a: "createProgramAddressSync H' isOnCurve' seeds programId =
           createProgramAddressSync H isOnCurve seeds programId"
    by (simp only: fst_createProgramAddressSync_traced)
  from assms(3) have "\<forall>m \<in> set (concat (map snd
             (snd (find_loop_traced H isOnCurve seeds programId 255)))). H' m = H m"
    by (simp only: findProgramAddressSync_traced_def)
  from find_loop_traced_agree[OF assms(1) this]
  have t: "find_loop_traced H' isOnCurve' seeds programId 255 =
             find_loop_traced H isOnCurve seeds programId 255" .
  then have "fst (find_loop_traced H' isOnCurve' seeds programId 255) =
             fst (find_loop_traced H isOnCurve seeds programId 255)" by simp
  then have b: "findProgramAddressSync H' isOnCurve' seeds programId =
           findProgramAddressSync H isOnCurve seeds programId"
    by (simp only: fst_find_loop_traced findProgramAddressSync_def)
  from t have c: "findProgramAddressSync_traced H' isOnCurve' seeds programId =
           findProgramAddressSync_traced H isOnCurve seeds programId"
    by (simp only: findProgramAddressSync_traced_def)
  have d: "digest32 H \<and> (\<forall>s \<in> set seeds. length s \<le> 32) \<longrightarrow>
            (\<forall>address nonce.
               findProgramAddressSync H isOnCurve seeds programId = Inr (address, nonce) \<longrightarrow>
                 1 \<le> nonce \<and> nonce \<le> 255
                 \<and> PublicKey_toBuffer address =
                     H (spec_preimage (seeds @ [[of_nat nonce]]) programId)
                 \<and> \<not> isOnCurve (H (spec_preimage (seeds @ [[of_nat nonce]]) programId))
                 \<and> (\<forall>k. nonce < k \<and> k \<le> 255 \<longrightarrow>
                      isOnCurve (H (spec_preimage (seeds @ [[of_nat k]]) programId))))"
    using findProgramAddressSync_winner[of H seeds isOnCurve programId] by blast
  from a b c d show ?thesis by (intro conjI)
qed

theorem derivation_deterministic_witness:
  "createProgramAddressSync (\<lambda>m. if m = [] then replicate 32 9 else example_hash m)
       (\<lambda>v. length v \<noteq> 32 \<or> example_curve v) [] (PublicKey 0) =
     createProgramAddressSync example_hash example_curve [] (PublicKey 0)
   \<and> findProgramAddressSync (\<lambda>m. if m = [] then replicate 32 9 else example_hash m)
       (\<lambda>v. length v \<noteq> 32 \<or> example_curve v) [] (PublicKey 0) =
     findProgramAddressSync example_hash example_curve [] (PublicKey 0)
   \<and> (\<exists>address.
        findProgramAddressSync example_hash example_curve [] (PublicKey 0) = Inr (address, 253)
        \<and> PublicKey_toBuffer address =
            example_hash (spec_preimage ([] @ [[of_nat 253]]) (PublicKey 0))
        \<and> \<not> example_curve (PublicKey_toBuffer address))"
proof -
  let ?H' = "\<lambda>m. if m = [] then replicate 32 9 else example_hash m"
  let ?c' = "\<lambda>v. length v \<noteq> 32 \<or> example_curve v"
  have c: "\<forall>v. length v = 32 \<longrightarrow> ?c' v = example_curve v" by simp
  have h1: "\<forall>m \<in> set (snd (createProgramAddressSync_traced example_hash example_curve
                               [] (PublicKey 0))).
              ?H' m = example_hash m"
    by (simp add: createProgramAddressSync_traced_eq spec_preimage_not_Nil)
  have h2: "\<forall>m \<in> set (concat (map snd (snd (findProgramAddressSync_traced
                 example_hash example_curve [] (PublicKey 0))))).
              ?H' m = example_hash m"
  proof
    fix m
    assume "m \<in> set (concat (map snd (snd (findProgramAddressSync_traced
                 example_hash example_curve [] (PublicKey 0)))))"
    then have "m \<in> set (concat (map snd (snd (find_loop_traced
                 example_hash example_curve [] (PublicKey 0) 255))))"
      by (simp only: findProgramAddressSync_traced_def)
    from find_loop_traced_hashed[OF this] have "m \<noteq> []"
      using spec_preimage_not_Nil by auto
    then show "?H' m = example_hash m" by simp
  qed
  have short: "\<forall>s \<in> set ([] :: bytes list). length s \<le> 32" by simp
  note det = derivation_deterministic[of ?c' example_curve example_hash "[]" "PublicKey 0" ?H',
      OF c h1 h2]
  from det have a: "createProgramAddressSync ?H' ?c' [] (PublicKey 0) =
     createProgramAddressSync example_hash example_curve [] (PublicKey 0)"
    and b: "findProgramAddressSync ?H' ?c' [] (PublicKey 0) =
     findProgramAddressSync example_hash example_curve [] (PublicKey 0)"
    by blast+
  from example_find obtain address where
    f: "findProgramAddressSync example_hash example_curve [] (PublicKey 0) = Inr (address, 253)"
    by blast
  from det digest32_example_hash short f
  have "PublicKey_toBuffer address =
          example_hash (spec_preimage ([] @ [[of_nat 253]]) (PublicKey 0))
      \<and> \<not> example_curve (example_hash (spec_preimage ([] @ [[of_nat 253]]) (PublicKey 0)))"
    by blast
  with f have "\<exists>address.
        findProgramAddressSync example_hash example_curve [] (PublicKey 0) = Inr (address, 253)
        \<and> PublicKey_toBuffer address =
            example_hash (spec_preimage ([] @ [[of_nat 253]]) (PublicKey 0))
        \<and> \<not> example_curve (PublicKey_toBuffer address)"
    by auto
  with a b show ?thesis by (intro conjI)
qed

section \<open>associated\<close>

text \<open>
  Claim C7. When every argument that is not a \<^verbatim>\<open>Buffer\<close> is translated successfully,
  as is the program id, \<open>associated\<close> calls the address search on the seed list made
  of the six bytes 97, 110, 99, 104, 111, 114 ("anchor") followed by the bytes of each
  argument (a \<^verbatim>\<open>Buffer\<close> as it is, anything else as the buffer of its translated
  address), with the translated program id, and returns the address of the pair found,
  without the nonce.
\<close>

theorem associated_delegates:
  assumes "list_all2 (\<lambda>arg b. case arg of Buf x \<Rightarrow> b = x
                       | Other a \<Rightarrow> \<exists>k. translateAddress a = Inr k \<and> b = PublicKey_toBuffer k)
             args comps"
    and "translateAddress programId = Inr pid"
  shows "associated translateAddress findProgramAddress programId args =
           (case findProgramAddress ([97, 110, 99, 104, 111, 114] # comps) pid of
              Inl e \<Rightarrow> Inl e
            | Inr (address, nonce) \<Rightarrow> Inr address)"
  using args_forEach_Inr[OF assms(1), of "[anchor]"] assms(2)
  by (simp add: associated_def anchor_def Buffer_from_def)

theorem associated_delegates_witness:
  "associated (\<lambda>s :: string. Inr (PublicKey 0))
       (findProgramAddressSync example_hash example_curve) ''P'' [Buf [1, 2], Other ''Q''] =
     (case findProgramAddressSync example_hash example_curve
             [[97, 110, 99, 104, 111, 114], [1, 2], PublicKey_toBuffer (PublicKey 0)]
             (PublicKey 0) of
        Inl e \<Rightarrow> Inl e
      | Inr (address, nonce) \<Rightarrow> Inr address)"
proof -
  have a: "list_all2 (\<lambda>arg b. case arg of Buf x \<Rightarrow> b = x
             | Other a \<Rightarrow> \<exists>k. (\<lambda>s :: string. Inr (PublicKey 0) :: error + PublicKey) a = Inr k
                               \<and> b = PublicKey_toBuffer k)
           [Buf [1, 2], Other ''Q''] [[1, 2], PublicKey_toBuffer (PublicKey 0)]"
    by simp
  have b: "(\<lambda>s :: string. Inr (PublicKey 0) :: error + PublicKey) ''P'' = Inr (PublicKey 0)"
    by simp
  from associated_delegates[OF a b] show ?thesis by simp
qed

end
